theory Spec2Isabelle
  imports Complex_Main "HOL-Library.Word" "HOL-Library.Sublist"
begin

section \<open>The MPC control bridge of src/main.cpp\<close>

text \<open>
  The program receives one websocket text message per telemetry update, extracts the JSON
  payload, predicts the vehicle state 100 ms ahead, transforms the waypoints into the car
  frame, fits a cubic, hands the state and the cubic to \<^verbatim>\<open>MPC::Solve\<close> and
  sends the first actuation pair back.

  Conventions of the embedding:
  \<^item> a C++ \<^verbatim>\<open>double\<close> is a \<^typ>\<open>real\<close>: arithmetic is exact, and there is no
    rounding, infinity or NaN. \<^verbatim>\<open>M_PI\<close> is \<^term>\<open>pi\<close>, \<^verbatim>\<open>pow(x, i)\<close> with an
    integer \<open>i \<ge> 0\<close> is \<^term>\<open>(x::real) ^ i\<close> (both give 1 for \<open>pow(0, 0)\<close>);
  \<^item> \<^verbatim>\<open>std::string\<close> is \<^typ>\<open>string\<close>, \<^verbatim>\<open>std::vector<double>\<close> and
    \<^verbatim>\<open>Eigen::VectorXd\<close> are \<^typ>\<open>real list\<close>, a matrix is the list of its rows;
  \<^item> \<^verbatim>\<open>size_t\<close> is a 64-bit word where the source subtracts (\<^verbatim>\<open>hasData\<close>);
  \<^item> \<^verbatim>\<open>assert\<close> is compiled in (no \<^verbatim>\<open>NDEBUG\<close>): a failed assertion aborts the
    process;
  \<^item> the libraries the file only calls (Eigen's Householder QR solve, the JSON parser,
    \<^verbatim>\<open>MPC::Solve\<close>) are parameters of the functions that call them.
\<close>

subsection \<open>String search of \<^verbatim>\<open>std::string\<close>\<close>

text \<open>\<^verbatim>\<open>s.find(pat)\<close>: the position of the first occurrence of \<open>pat\<close>, \<open>None\<close> for
  \<^verbatim>\<open>npos\<close>.\<close>

fun find_str :: "string \<Rightarrow> string \<Rightarrow> nat option" where
  "find_str pat [] = (if pat = [] then Some 0 else None)"
| "find_str pat (c # cs) =
     (if take (length pat) (c # cs) = pat then Some 0
      else map_option Suc (find_str pat cs))"

text \<open>\<^verbatim>\<open>s.find_first_of(chars)\<close>: the position of the first character of \<open>s\<close> that
  is one of \<open>chars\<close>.\<close>

fun find_first_of :: "string \<Rightarrow> string \<Rightarrow> nat option" where
  "find_first_of chars [] = None"
| "find_first_of chars (c # cs) =
     (if c \<in> set chars then Some 0 else map_option Suc (find_first_of chars cs))"

text \<open>\<^verbatim>\<open>s.rfind(pat)\<close>: the position of the last occurrence of \<open>pat\<close>.\<close>

fun rfind_str :: "string \<Rightarrow> string \<Rightarrow> nat option" where
  "rfind_str pat [] = (if pat = [] then Some 0 else None)"
| "rfind_str pat (c # cs) =
     (case rfind_str pat cs of
        Some i \<Rightarrow> Some (Suc i)
      | None \<Rightarrow> if take (length pat) (c # cs) = pat then Some 0 else None)"

text \<open>\<^verbatim>\<open>s.substr(pos, count)\<close> for \<open>pos \<le> s.size()\<close>: at most \<open>count\<close> characters from
  \<open>pos\<close> on. (\<^verbatim>\<open>hasData\<close> calls it with the position of a character of \<open>s\<close>.)\<close>

definition substr :: "string \<Rightarrow> nat \<Rightarrow> nat \<Rightarrow> string" where
  "substr s pos count = take count (drop pos s)"

subsection \<open>\<^verbatim>\<open>hasData\<close> (lines 23--33)\<close>

text \<open>The count \<^verbatim>\<open>b2 - b1 + 2\<close> is computed in \<^verbatim>\<open>size_t\<close>, so it wraps around
  when \<open>b2 < b1\<close>.\<close>

definition hasData :: "string \<Rightarrow> string" where
  "hasData s =
     (let found_null = find_str ''null'' s;
          b1 = find_first_of ''['' s;
          b2 = rfind_str ''}]'' s
      in if found_null \<noteq> None then ''''
         else (case (b1, b2) of
                 (Some p1, Some p2) \<Rightarrow>
                   substr s p1 (unat ((word_of_nat p2 :: 64 word) - word_of_nat p1 + 2))
               | _ \<Rightarrow> ''''))"

subsection \<open>\<^verbatim>\<open>polyeval\<close> (lines 36--42)\<close>

text \<open>The loop adds \<^verbatim>\<open>coeffs[i] * pow(x, i)\<close> for \<open>i = 0, 1, \<dots>\<close>; \<open>polyeval_loop\<close> is
  the loop from index \<open>i\<close> on, over the coefficients still to be read.\<close>

fun polyeval_loop :: "real list \<Rightarrow> real \<Rightarrow> nat \<Rightarrow> real \<Rightarrow> real" where
  "polyeval_loop [] x i result = result"
| "polyeval_loop (c # cs) x i result = polyeval_loop cs x (Suc i) (result + c * x ^ i)"

definition polyeval :: "real list \<Rightarrow> real \<Rightarrow> real" where
  "polyeval coeffs x = polyeval_loop coeffs x 0 0"

subsection \<open>\<^verbatim>\<open>global2car\<close> (lines 68--79)\<close>

definition global2car :: "real \<Rightarrow> real \<Rightarrow> real \<Rightarrow> real \<Rightarrow> real \<Rightarrow> real list" where
  "global2car psi px py x_global y_global =
     (let dx = x_global - px;
          dy = y_global - py;
          sin_psi = sin psi;
          cos_psi = cos psi;
          x_car = dx * cos_psi + dy * sin_psi;
          y_car = - dx * sin_psi + dy * cos_psi
      in [x_car, y_car])"

subsection \<open>\<^verbatim>\<open>deg2rad\<close> (line 17)\<close>

definition deg2rad :: "real \<Rightarrow> real" where
  "deg2rad x = x * pi / 180"

subsection \<open>\<^verbatim>\<open>polyfit\<close> (lines 47--66)\<close>

text \<open>What ends a message handler other than its return: a failed \<^verbatim>\<open>assert\<close>
  (the process aborts), an exception nobody catches (the handler has no
  \<^verbatim>\<open>try\<close>), a read of a \<^verbatim>\<open>std::vector\<close> past its end (undefined behaviour).\<close>

datatype failure = AssertionFailed | UncaughtException | OutOfRange

text \<open>Eigen's \<^verbatim>\<open>A.householderQr().solve(yvals)\<close>, the least-squares solve, is a
  parameter: it takes the rows of the design matrix and the right-hand side.\<close>

type_synonym qr_solve = "real list list \<Rightarrow> real list \<Rightarrow> real list"

text \<open>One row of the design matrix: \<^verbatim>\<open>A(j, 0) = 1\<close>, then
  \<^verbatim>\<open>A(j, i + 1) = A(j, i) * xvals(j)\<close> for \<open>i < order\<close>. \<open>design_row a x n\<close> is the
  row from an entry \<open>a\<close> on, with \<open>n\<close> entries still to be filled after it.\<close>

primrec design_row :: "real \<Rightarrow> real \<Rightarrow> nat \<Rightarrow> real list" where
  "design_row a x 0 = [a]"
| "design_row a x (Suc n) = a # design_row (a * x) x n"

text \<open>\<^verbatim>\<open>xvals.size()\<close> is Eigen's signed \<^verbatim>\<open>Index\<close>, so \<^verbatim>\<open>xvals.size() - 1\<close> is
  \<open>-1\<close> for an empty vector and the comparison is one of integers.\<close>

definition polyfit :: "qr_solve \<Rightarrow> real list \<Rightarrow> real list \<Rightarrow> int \<Rightarrow> failure + real list" where
  "polyfit qr xvals yvals order =
     (if int (length xvals) \<noteq> int (length yvals) then Inl AssertionFailed
      else if \<not> (order \<ge> 1 \<and> order \<le> int (length xvals) - 1) then Inl AssertionFailed
      else Inr (qr (map (\<lambda>x. design_row 1 x (nat order)) xvals) yvals))"

subsection \<open>The message handler (lines 88--232)\<close>

text \<open>The fields of \<^verbatim>\<open>j[1]\<close> the handler reads (lines 102--109), under their JSON
  keys.\<close>

record telemetry =
  tel_ptsx :: "real list"
  tel_ptsy :: "real list"
  tel_x :: real
  tel_y :: real
  tel_psi :: real
  tel_speed :: real
  tel_steering_angle :: real
  tel_throttle :: real

text \<open>The JSON library is a parameter: \<^verbatim>\<open>json::parse(s)\<close>, \<^verbatim>\<open>j[0].get<string>()\<close>
  and the eight field reads either throw or give the event name and, where \<^verbatim>\<open>j[1]\<close>
  has all eight fields with the right types, their values.\<close>

datatype json_message = JsonThrows | JsonEvent string "telemetry option"

type_synonym json_parse = "string \<Rightarrow> json_message"

text \<open>\<^verbatim>\<open>msgJson\<close> (lines 171--209), under its JSON keys.\<close>

record command =
  cmd_steering_angle :: real
  cmd_throttle :: real
  cmd_mpc_x :: "real list"
  cmd_mpc_y :: "real list"
  cmd_next_x :: "real list"
  cmd_next_y :: "real list"

text \<open>What \<^verbatim>\<open>ws.send\<close> is given: \<^verbatim>\<open>42["manual",{}]\<close> or
  \<^verbatim>\<open>42["steer",<msgJson>]\<close>.\<close>

datatype reply = Manual | Steer command

datatype outcome = Sent reply | NoReply | Crashed failure

text \<open>\<^verbatim>\<open>MPC::Solve\<close> is declared in \<^verbatim>\<open>MPC.h\<close>, which is not part of the sources:
  it is a parameter. The handler captures the \<^verbatim>\<open>MPC\<close> instance by reference, so the
  solver takes the instance (any type \<open>'m\<close>) and returns it, together with the vector the
  handler indexes (\<^verbatim>\<open>result[0]\<close>, \<^verbatim>\<open>result.size()\<close>). Whether the optimiser
  converged is a fact of the solve that the returned vector does not carry; the model
  records it beside the vector, where the handler has no access to it.\<close>

record 'm solve_return =
  vars :: "real list"
  converged :: bool
  mpc_after :: 'm

type_synonym 'm mpc_solve = "'m \<Rightarrow> real list \<Rightarrow> real list \<Rightarrow> 'm solve_return"

text \<open>Lines 203--206: \<^verbatim>\<open>for (double i = 0; i < 100.0; i += 2)\<close> appends \<open>i\<close> to
  \<^verbatim>\<open>next_x_vals\<close> and \<^verbatim>\<open>polyeval(coeffs, i)\<close> to \<^verbatim>\<open>next_y_vals\<close>.\<close>

function reference_line :: "real list \<Rightarrow> real \<Rightarrow> real list \<times> real list \<Rightarrow> real list \<times> real list" where
  "reference_line coeffs i (next_x_vals, next_y_vals) =
     (if i < 100 then
        reference_line coeffs (i + 2) (next_x_vals @ [i], next_y_vals @ [polyeval coeffs i])
      else (next_x_vals, next_y_vals))"
  by pat_completeness auto
termination
  by (relation "measure (\<lambda>(coeffs, i, acc). nat \<lceil>100 - i\<rceil>)") (auto, linarith)

declare reference_line.simps [simp del]

text \<open>Lines 167--224, from the solver's vector to the message sent. \<^verbatim>\<open>result[0]\<close> and
  \<^verbatim>\<open>result[1]\<close> are read unchecked. With at least two entries,
  \<^verbatim>\<open>n = (result.size() - 2) / 2\<close> does not wrap and every \<^verbatim>\<open>result[i + n + 2]\<close> is in
  range.\<close>

definition actuate :: "real list \<Rightarrow> real list \<Rightarrow> outcome" where
  "actuate result coeffs =
     (if length result < 2 then Crashed OutOfRange
      else
        let steer_value = - (result ! 0);
            throttle_value = result ! 1;
            n = (length result - 2) div 2;
            mpc_x_vals = map (\<lambda>i. result ! (i + 2)) [0..<n];
            mpc_y_vals = map (\<lambda>i. result ! (i + n + 2)) [0..<n];
            (next_x_vals, next_y_vals) = reference_line coeffs 0 ([], [])
        in Sent (Steer \<lparr>cmd_steering_angle = steer_value / deg2rad 25,
                         cmd_throttle = throttle_value,
                         cmd_mpc_x = mpc_x_vals,
                         cmd_mpc_y = mpc_y_vals,
                         cmd_next_x = next_x_vals,
                         cmd_next_y = next_y_vals\<rparr>))"

text \<open>Lines 122--131: the waypoints in the frame of the pose \<open>(px, py, psi)\<close>. Both
  vectors are filled over \<^verbatim>\<open>ptsx.size()\<close>, and \<^verbatim>\<open>ptsy[i]\<close> is read unchecked.\<close>

definition transform_waypoints ::
  "real \<Rightarrow> real \<Rightarrow> real \<Rightarrow> real list \<Rightarrow> real list \<Rightarrow> failure + real list \<times> real list" where
  "transform_waypoints psi px py ptsx ptsy =
     (if length ptsy < length ptsx then Inl OutOfRange
      else
        let coord_car = map (\<lambda>i. global2car psi px py (ptsx ! i) (ptsy ! i)) [0..<length ptsx];
            way_pts_x = map (\<lambda>c. c ! 0) coord_car;
            way_pts_y = map (\<lambda>c. c ! 1) coord_car
        in Inr (way_pts_x, way_pts_y))"

text \<open>Lines 122--165 and then \<open>actuate\<close>: the waypoints are transformed, the cubic is
  fitted, the two errors are read off it and the solver is called on the state
  \<open>(0, 0, 0, v, cte, epsi)\<close>. \<^verbatim>\<open>coeffs[1]\<close> is Eigen's checked access (an
  assertion).\<close>

definition control_step ::
  "qr_solve \<Rightarrow> 'm mpc_solve \<Rightarrow> 'm \<Rightarrow> real list \<Rightarrow> real list \<Rightarrow> real \<Rightarrow> real \<Rightarrow> real \<Rightarrow> real
     \<Rightarrow> outcome \<times> 'm" where
  "control_step qr solve mpc ptsx ptsy px py psi v =
     (case transform_waypoints psi px py ptsx ptsy of
        Inl f \<Rightarrow> (Crashed f, mpc)
      | Inr (way_pts_x, way_pts_y) \<Rightarrow>
          (case polyfit qr way_pts_x way_pts_y 3 of
             Inl f \<Rightarrow> (Crashed f, mpc)
           | Inr coeffs \<Rightarrow>
               if length coeffs < 2 then (Crashed AssertionFailed, mpc)
               else
                 let cte = polyeval coeffs 0;
                     epsi = - arctan (coeffs ! 1);
                     state = [0, 0, 0, v, cte, epsi];
                     solved = solve mpc state coeffs
                 in (actuate (vars solved) coeffs, mpc_after solved)))"

text \<open>Lines 102--120 and then \<open>control_step\<close>: the unit and sign conversions and the
  prediction over the latency, each assignment of the source in its order.\<close>

definition telemetry_cycle :: "qr_solve \<Rightarrow> 'm mpc_solve \<Rightarrow> 'm \<Rightarrow> telemetry \<Rightarrow> outcome \<times> 'm" where
  "telemetry_cycle qr solve mpc t =
     (let ptsx = tel_ptsx t;
          ptsy = tel_ptsy t;
          px = tel_x t;
          py = tel_y t;
          psi = tel_psi t;
          v = tel_speed t;
          delta = tel_steering_angle t;
          acceleration = tel_throttle t;
          v = v * 0.44704;
          delta = - delta;
          latency = 0.1;
          Lf = 2.67;
          px = px + v * cos psi * latency;
          py = py + v * sin psi * latency;
          psi = psi + v * delta / Lf * latency;
          v = v + acceleration * latency
      in control_step qr solve mpc ptsx ptsy px py psi v)"

text \<open>Lines 93--100 and 226--231. \<open>sdata\<close> is the message text. An event other than
  \<^verbatim>\<open>"telemetry"\<close> and a message that does not start with \<^verbatim>\<open>42\<close> are dropped without
  a reply.\<close>

definition onMessage ::
  "json_parse \<Rightarrow> qr_solve \<Rightarrow> 'm mpc_solve \<Rightarrow> 'm \<Rightarrow> string \<Rightarrow> outcome \<times> 'm" where
  "onMessage parse qr solve mpc sdata =
     (if length sdata > 2 \<and> sdata ! 0 = CHR ''4'' \<and> sdata ! 1 = CHR ''2'' then
        let s = hasData sdata
        in if s \<noteq> '''' then
             (case parse s of
                JsonThrows \<Rightarrow> (Crashed UncaughtException, mpc)
              | JsonEvent event body \<Rightarrow>
                  if event = ''telemetry'' then
                    (case body of
                       None \<Rightarrow> (Crashed UncaughtException, mpc)
                     | Some t \<Rightarrow> telemetry_cycle qr solve mpc t)
                  else (NoReply, mpc))
           else (Sent Manual, mpc)
      else (NoReply, mpc))"

text \<open>The command a cycle sent, if it sent one.\<close>

fun sent_command :: "outcome \<Rightarrow> command option" where
  "sent_command (Sent (Steer c)) = Some c"
| "sent_command _ = None"

subsection \<open>The latency compensator as the specification words it\<close>

text \<open>Section 4.3 of the specification: from the state \<open>(x, y, psi, v)\<close> and the last
  actuation \<open>(delta, a)\<close>, over the interval \<open>dt\<close> with wheelbase \<open>Lf\<close>. This definition
  follows the specification, not the source; it is what the source's assignments are
  compared with.\<close>

definition spec_latency_compensator ::
  "real \<Rightarrow> real \<Rightarrow> real \<times> real \<times> real \<times> real \<Rightarrow> real \<times> real \<Rightarrow> real \<times> real \<times> real \<times> real" where
  "spec_latency_compensator dt Lf state actuation =
     (case (state, actuation) of
        ((x, y, psi, v), (delta, a)) \<Rightarrow>
          (x + v * cos psi * dt,
           y + v * sin psi * dt,
           psi + (v / Lf) * delta * dt,
           v + a * dt))"

subsection \<open>Inputs and library stand-ins for the concrete runs\<close>

text \<open>The vehicle at the origin with heading 0 at 10 mph, six waypoints on the global
  x-axis.\<close>

definition straight_line :: telemetry where
  "straight_line =
     \<lparr>tel_ptsx = [0, 10, 20, 30, 40, 50], tel_ptsy = [0, 0, 0, 0, 0, 0],
      tel_x = 0, tel_y = 0, tel_psi = 0, tel_speed = 10,
      tel_steering_angle = 0, tel_throttle = 1\<rparr>"

text \<open>The same with three waypoints only.\<close>

definition three_waypoints :: telemetry where
  "three_waypoints = straight_line\<lparr>tel_ptsx := [0, 10, 20], tel_ptsy := [0, 0, 0]\<rparr>"

text \<open>The first again with the wheels turned, and with four waypoints on the line
  \<open>y = x + 1\<close>.\<close>

definition left_turn :: telemetry where
  "left_turn = straight_line\<lparr>tel_steering_angle := 1 / 10\<rparr>"

definition offset_line :: telemetry where
  "offset_line = straight_line\<lparr>tel_ptsx := [0, 1, 2, 3], tel_ptsy := [1, 2, 3, 4]\<rparr>"

text \<open>A least-squares solve that answers with the coefficients \<open>cs\<close> whatever the
  system. With \<open>cs = [0, 0, 0, 0]\<close> it is exact for waypoints on the car's own x-axis.\<close>

definition fixed_fit :: "real list \<Rightarrow> qr_solve" where
  "fixed_fit cs A y = cs"

text \<open>A solver that returns the vector \<open>r\<close> whatever it is asked, and reports
  convergence.\<close>

definition fixed_solver :: "real list \<Rightarrow> unit mpc_solve" where
  "fixed_solver r mpc state coeffs = \<lparr>vars = r, converged = True, mpc_after = mpc\<rparr>"


subsection \<open>The normalised range of a command\<close>

text \<open>Line 162 of the source: steering and throttle of a command ``are in between
  [-1, 1]''.\<close>

definition within_bounds :: "command \<Rightarrow> bool" where
  "within_bounds c =
     (- 1 \<le> cmd_steering_angle c \<and> cmd_steering_angle c \<le> 1 \<and>
      - 1 \<le> cmd_throttle c \<and> cmd_throttle c \<le> 1)"

section \<open>Properties\<close>

subsection \<open>The loops in closed form\<close>

text \<open>A row of the design matrix holds the powers \<open>x\<^sup>0, \<dots>, x\<^sup>n\<close>.\<close>

lemma design_row_powers: "design_row a x n = map (\<lambda>i. a * x ^ i) [0..<Suc n]"
proof (induction n arbitrary: a)
  case 0
  then show ?case by simp
next
  case (Suc n)
  have "map (\<lambda>i. a * x ^ i) [0..<Suc (Suc n)] = a # map (\<lambda>i. a * x ^ Suc i) [0..<Suc n]"
    by (simp only: upt_conv_Cons [of 0] map_Suc_upt [symmetric] list.map map_map o_def) simp
  also have "\<dots> = a # map (\<lambda>i. a * x * x ^ i) [0..<Suc n]"
    by (simp add: mult.assoc)
  also have "\<dots> = design_row a x (Suc n)"
    by (simp only: design_row.simps Suc.IH)
  finally show ?case by simp
qed

text \<open>\<open>polyeval\<close> is the polynomial with the coefficients lowest order first.\<close>

lemma polyeval_loop_sum:
  "polyeval_loop cs x i r = r + (\<Sum>k<length cs. cs ! k * x ^ (i + k))"
proof (induction cs arbitrary: i r)
  case Nil
  then show ?case by simp
next
  case (Cons c cs)
  have "(\<Sum>k<Suc (length cs). (c # cs) ! k * x ^ (i + k))
      = c * x ^ i + (\<Sum>k<length cs. cs ! k * x ^ (Suc i + k))"
    by (subst sum.lessThan_Suc_shift) simp
  with Cons.IH [of "Suc i" "r + c * x ^ i"] show ?case
    by simp
qed

lemma polyeval_sum: "polyeval coeffs x = (\<Sum>k<length coeffs. coeffs ! k * x ^ k)"
  by (simp add: polyeval_def polyeval_loop_sum)

text \<open>The reference line has the fifty samples at \<open>x = 0, 2, \<dots>, 98\<close>.\<close>

lemma reference_line_steps:
  "reference_line coeffs (100 - 2 * real n) (xs, ys) =
     (xs @ map (\<lambda>k. 100 - 2 * real n + 2 * real k) [0..<n],
      ys @ map (\<lambda>k. polyeval coeffs (100 - 2 * real n + 2 * real k)) [0..<n])"
proof (induction n arbitrary: xs ys)
  case 0
  then show ?case by (simp add: reference_line.simps)
next
  case (Suc n)
  have step: "100 - 2 * real (Suc n) + 2 = 100 - 2 * real n"
    by simp
  have shift: "map (\<lambda>k. f (100 - 2 * real (Suc n) + 2 * real k)) [0..<Suc n]
      = f (100 - 2 * real (Suc n)) # map (\<lambda>k. f (100 - 2 * real n + 2 * real k)) [0..<n]" for f :: "real \<Rightarrow> real"
  proof -
    have "map (\<lambda>k. f (100 - 2 * real (Suc n) + 2 * real k)) [0..<Suc n]
      = f (100 - 2 * real (Suc n)) # map (\<lambda>k. f (100 - 2 * real (Suc n) + 2 * real (Suc k))) [0..<n]"
      by (simp only: upt_conv_Cons [of 0 "Suc n"] map_Suc_upt [symmetric] list.map map_map o_def) simp
    also have "(\<lambda>k. f (100 - 2 * real (Suc n) + 2 * real (Suc k))) = (\<lambda>k. f (100 - 2 * real n + 2 * real k))"
      by (rule ext) (simp add: algebra_simps)
    finally show ?thesis .
  qed
  have lt: "100 - 2 * real (Suc n) < 100"
    by simp
  have "reference_line coeffs (100 - 2 * real (Suc n)) (xs, ys)
      = reference_line coeffs (100 - 2 * real n)
          (xs @ [100 - 2 * real (Suc n)], ys @ [polyeval coeffs (100 - 2 * real (Suc n))])"
    by (subst reference_line.simps) (simp only: lt if_True step)
  also have "\<dots> = ((xs @ [100 - 2 * real (Suc n)]) @ map (\<lambda>k. 100 - 2 * real n + 2 * real k) [0..<n],
      (ys @ [polyeval coeffs (100 - 2 * real (Suc n))])
         @ map (\<lambda>k. polyeval coeffs (100 - 2 * real n + 2 * real k)) [0..<n])"
    by (simp only: Suc.IH)
  also have "\<dots> = (xs @ map (\<lambda>k. 100 - 2 * real (Suc n) + 2 * real k) [0..<Suc n],
      ys @ map (\<lambda>k. polyeval coeffs (100 - 2 * real (Suc n) + 2 * real k)) [0..<Suc n])"
    by (simp only: shift [of "\<lambda>x. x"] shift [of "polyeval coeffs"] append_assoc append_Cons append_Nil)
  finally show ?case .
qed

lemma reference_line_samples:
  "reference_line coeffs 0 ([], []) =
     (map (\<lambda>k. 2 * real k) [0..<50], map (\<lambda>k. polyeval coeffs (2 * real k)) [0..<50])"
  using reference_line_steps [of coeffs 50 "[]" "[]"] by simp

subsection \<open>The steps of a cycle\<close>

lemma length_design_row: "length (design_row a x n) = Suc n"
  by (induction n arbitrary: a) simp_all

lemma polyfit_too_few:
  "int (length xvals) \<le> order \<Longrightarrow> polyfit qr xvals yvals order = Inl AssertionFailed"
  by (simp add: polyfit_def)

lemma polyfit_enough:
  "length xvals = length yvals \<Longrightarrow> 1 \<le> order \<Longrightarrow> order < int (length xvals) \<Longrightarrow>
     polyfit qr xvals yvals order = Inr (qr (map (\<lambda>x. design_row 1 x (nat order)) xvals) yvals)"
  by (simp add: polyfit_def)

lemma transform_waypoints_short:
  "length ptsy < length ptsx \<Longrightarrow> transform_waypoints psi px py ptsx ptsy = Inl OutOfRange"
  by (simp add: transform_waypoints_def)

lemma transform_waypoints_total:
  "length ptsx \<le> length ptsy \<Longrightarrow>
     \<exists>wx wy. transform_waypoints psi px py ptsx ptsy = Inr (wx, wy) \<and>
       length wx = length ptsx \<and> length wy = length ptsx"
  by (simp add: transform_waypoints_def Let_def)

lemma polyeval_loop_at_zero: "polyeval_loop cs 0 (Suc i) r = r"
  by (induction cs arbitrary: i r) simp_all

lemma polyeval_at_zero: "polyeval (c # cs) 0 = c"
  by (simp add: polyeval_def polyeval_loop_at_zero)

text \<open>The cycle is the control step at the predicted pose.\<close>

lemma telemetry_cycle_unfold:
  "telemetry_cycle qr solve mpc t =
     control_step qr solve mpc (tel_ptsx t) (tel_ptsy t)
       (tel_x t + tel_speed t * 0.44704 * cos (tel_psi t) * 0.1)
       (tel_y t + tel_speed t * 0.44704 * sin (tel_psi t) * 0.1)
       (tel_psi t + tel_speed t * 0.44704 * (- tel_steering_angle t) / 2.67 * 0.1)
       (tel_speed t * 0.44704 + tel_throttle t * 0.1)"
  by (simp add: telemetry_cycle_def Let_def)

text \<open>Once the waypoints are transformed and fitted, the step is the solver's call and the
  message built from what it returns.\<close>

lemma control_step_solved:
  assumes "transform_waypoints psi px py ptsx ptsy = Inr (wx, wy)"
    and "polyfit qr wx wy 3 = Inr coeffs"
    and "2 \<le> length coeffs"
  shows "control_step qr solve mpc ptsx ptsy px py psi v =
     (actuate (vars (solve mpc [0, 0, 0, v, polyeval coeffs 0, - arctan (coeffs ! 1)] coeffs)) coeffs,
      mpc_after (solve mpc [0, 0, 0, v, polyeval coeffs 0, - arctan (coeffs ! 1)] coeffs))"
  using assms by (simp add: control_step_def Let_def)

lemma control_step_too_few:
  assumes "length ptsx < 4" and "length ptsx \<le> length ptsy"
  shows "control_step qr solve mpc ptsx ptsy px py psi v = (Crashed AssertionFailed, mpc)"
proof -
  obtain wx wy where w: "transform_waypoints psi px py ptsx ptsy = Inr (wx, wy)"
    and l: "length wx = length ptsx"
    using transform_waypoints_total [OF assms(2), of psi px py] by auto
  from l assms(1) have "polyfit qr wx wy 3 = Inl AssertionFailed"
    by (intro polyfit_too_few) simp
  with w show ?thesis by (simp add: control_step_def)
qed

lemma actuate_sent:
  assumes "2 \<le> length result"
  shows "\<exists>c. actuate result coeffs = Sent (Steer c) \<and>
           cmd_steering_angle c = - (result ! 0) / deg2rad 25 \<and>
           cmd_throttle c = result ! 1"
  using assms by (simp add: actuate_def Let_def case_prod_beta)

lemma deg2rad_25_pos: "0 < deg2rad 25"
  by (simp add: deg2rad_def)

lemma deg2rad_25: "deg2rad 25 = 25 * pi / 180"
  by (simp add: deg2rad_def)

text \<open>Nothing is clamped: the command is in range exactly when the solver's pair is.\<close>

lemma actuate_within_bounds:
  assumes "2 \<le> length result" and "actuate result coeffs = Sent (Steer c)"
  shows "within_bounds c \<longleftrightarrow> \<bar>result ! 0\<bar> \<le> deg2rad 25 \<and> \<bar>result ! 1\<bar> \<le> 1"
proof -
  from actuate_sent [OF assms(1), of coeffs] assms(2)
  have s: "cmd_steering_angle c = - (result ! 0) / deg2rad 25"
    and th: "cmd_throttle c = result ! 1" by auto
  have "- 1 \<le> - (result ! 0) / deg2rad 25 \<and> - (result ! 0) / deg2rad 25 \<le> 1
      \<longleftrightarrow> \<bar>result ! 0\<bar> \<le> deg2rad 25"
    using deg2rad_25_pos by (auto simp add: field_simps abs_le_iff)
  then show ?thesis unfolding within_bounds_def s th by (auto simp add: abs_le_iff)
qed

text \<open>A cycle with at least four waypoints sends a steering command, whatever the two
  libraries return, as long as they return at least two numbers each.\<close>

lemma cycle_sends:
  assumes "4 \<le> length (tel_ptsx t)" and "length (tel_ptsx t) \<le> length (tel_ptsy t)"
    and qr: "\<And>A y. 2 \<le> length (qr A y)"
    and solve: "\<And>m s c. 2 \<le> length (vars (solve m s c))"
  shows "\<exists>c. fst (telemetry_cycle qr solve mpc t) = Sent (Steer c)"
proof -
  let ?psi = "tel_psi t + tel_speed t * 0.44704 * (- tel_steering_angle t) / 2.67 * 0.1"
  let ?px = "tel_x t + tel_speed t * 0.44704 * cos (tel_psi t) * 0.1"
  let ?py = "tel_y t + tel_speed t * 0.44704 * sin (tel_psi t) * 0.1"
  obtain wx wy where w: "transform_waypoints ?psi ?px ?py (tel_ptsx t) (tel_ptsy t) = Inr (wx, wy)"
    and lx: "length wx = length (tel_ptsx t)" and ly: "length wy = length (tel_ptsx t)"
    using transform_waypoints_total [OF assms(2)] by blast
  define coeffs where "coeffs = qr (map (\<lambda>x. design_row 1 x (nat 3)) wx) wy"
  have fit: "polyfit qr wx wy 3 = Inr coeffs"
    unfolding coeffs_def using lx ly assms(1) by (intro polyfit_enough) simp_all
  have len: "2 \<le> length coeffs"
    unfolding coeffs_def by (rule qr)
  show ?thesis
    unfolding telemetry_cycle_unfold control_step_solved [OF w fit len] fst_conv
    using actuate_sent [OF solve] by blast
qed


text \<open>The run on \<open>straight_line\<close> with the zero fit, for any solver.\<close>

lemma straight_line_run:
  "telemetry_cycle (fixed_fit [0, 0, 0, 0]) solve mpc straight_line
     = (actuate (vars (solve mpc [0, 0, 0, 4.5704, 0, 0] [0, 0, 0, 0])) [0, 0, 0, 0],
        mpc_after (solve mpc [0, 0, 0, 4.5704, 0, 0] [0, 0, 0, 0]))"
  by (simp add: telemetry_cycle_def control_step_def transform_waypoints_def polyfit_def
      straight_line_def fixed_fit_def Let_def polyeval_def)

subsection \<open>Too few waypoints\<close>

text \<open>
  C1, as the source has it. For every telemetry cycle with fewer than four waypoints (and a
  \<open>ptsy\<close> at least as long as \<open>ptsx\<close>), the assertion
  \<^verbatim>\<open>order <= xvals.size() - 1\<close> of \<open>polyfit\<close> fails: the process aborts, no reply is sent
  and the solver is not called (the \<open>MPC\<close> instance is as it was). The source has no
  input validation and no default command.
\<close>

theorem too_few_waypoints_abort:
  assumes "length (tel_ptsx t) < 4" and "length (tel_ptsx t) \<le> length (tel_ptsy t)"
  shows "telemetry_cycle qr solve mpc t = (Crashed AssertionFailed, mpc)"
  unfolding telemetry_cycle_unfold using assms by (rule control_step_too_few)

theorem too_few_waypoints_abort_witness:
  "length (tel_ptsx three_waypoints) < 4
   \<and> length (tel_ptsx three_waypoints) \<le> length (tel_ptsy three_waypoints)
   \<and> telemetry_cycle (fixed_fit [1, 2, 3, 4]) (fixed_solver [0, 0]) () three_waypoints
       = (Crashed AssertionFailed, ())"
  using too_few_waypoints_abort [of three_waypoints "fixed_fit [1, 2, 3, 4]" "fixed_solver [0, 0]" "()"]
  by (simp add: three_waypoints_def straight_line_def)

text \<open>C1 as the specification states it fails: with three waypoints on the x-axis the cycle
  neither sends a zero command nor ends quietly; it aborts in \<open>polyfit\<close>.\<close>

theorem three_waypoints_abort:
  "telemetry_cycle (fixed_fit [0, 0, 0, 0]) (fixed_solver [0, 0]) () three_waypoints
     = (Crashed AssertionFailed, ())"
  by (simp add: telemetry_cycle_def control_step_def transform_waypoints_def polyfit_def
      three_waypoints_def straight_line_def Let_def)

subsection \<open>Frame transform\<close>

text \<open>
  C4. For every pose \<open>(x0, y0, psi)\<close> and every global point \<open>(x, y)\<close>, \<open>global2car\<close>
  returns the pair \<open>(dx * cos psi + dy * sin psi, - dx * sin psi + dy * cos psi)\<close> with
  \<open>dx = x - x0\<close> and \<open>dy = y - y0\<close>: the rotation is the formula itself, with no
  small-angle or other approximation of sine and cosine.
\<close>

theorem global2car_formula:
  "global2car psi x0 y0 x y =
     [(x - x0) * cos psi + (y - y0) * sin psi,
      - (x - x0) * sin psi + (y - y0) * cos psi]"
  by (simp add: global2car_def Let_def algebra_simps)

lemma global2car_nth:
  "global2car psi x0 y0 x y ! 0 = (x - x0) * cos psi + (y - y0) * sin psi"
  "global2car psi x0 y0 x y ! 1 = (y - y0) * cos psi - (x - x0) * sin psi"
  by (simp_all add: global2car_def Let_def)

lemma rotation_norm:
  fixes a b c s :: real
  assumes "s\<^sup>2 + c\<^sup>2 = 1"
  shows "(a * c + b * s)\<^sup>2 + (b * c - a * s)\<^sup>2 = a\<^sup>2 + b\<^sup>2"
proof -
  have "(a * c + b * s)\<^sup>2 + (b * c - a * s)\<^sup>2 = (a\<^sup>2 + b\<^sup>2) * (s\<^sup>2 + c\<^sup>2)"
    by algebra
  with assms show ?thesis by simp
qed

text \<open>
  C5. In exact arithmetic the transform keeps the distance to the vehicle: the squared norm
  of the local point is \<open>dx\<^sup>2 + dy\<^sup>2\<close>, so the norm is the Euclidean distance between the
  global point and the vehicle position; and the vehicle's own position goes to \<open>(0, 0)\<close>.
\<close>

theorem global2car_isometry:
  "(global2car psi x0 y0 x y ! 0)\<^sup>2 + (global2car psi x0 y0 x y ! 1)\<^sup>2 = (x - x0)\<^sup>2 + (y - y0)\<^sup>2
   \<and> sqrt ((global2car psi x0 y0 x y ! 0)\<^sup>2 + (global2car psi x0 y0 x y ! 1)\<^sup>2)
       = sqrt ((x - x0)\<^sup>2 + (y - y0)\<^sup>2)
   \<and> global2car psi x0 y0 x0 y0 = [0, 0]"
proof -
  have e: "(global2car psi x0 y0 x y ! 0)\<^sup>2 + (global2car psi x0 y0 x y ! 1)\<^sup>2
      = (x - x0)\<^sup>2 + (y - y0)\<^sup>2"
    unfolding global2car_nth by (rule rotation_norm) (rule sin_cos_squared_add)
  have "global2car psi x0 y0 x0 y0 = [0, 0]"
    by (simp add: global2car_def)
  with e show ?thesis by simp
qed

subsection \<open>Latency compensation\<close>

text \<open>
  C7. For every telemetry record, the cycle is the control step (frame transform, fit,
  solve, reply) run at the state the specification's latency compensator gives: from
  \<open>(x, y, psi, v)\<close> with \<open>v\<close> the speed in m/s, and the actuation \<open>(delta, a)\<close> with \<open>delta\<close>
  the negated telemetry steering angle, it is
  \<open>(x + v * cos psi * dt, y + v * sin psi * dt, psi + (v / Lf) * delta * dt, v + a * dt)\<close>
  for \<open>dt = 0.1\<close> and \<open>Lf = 2.67\<close>. The source's own assignments are those of
  \<open>telemetry_cycle\<close>; the compensated pose is the one the waypoints are transformed with
  and the compensated speed the one in the solver's state.
\<close>

theorem latency_compensation_first:
  "telemetry_cycle qr solve mpc t =
     (case spec_latency_compensator 0.1 2.67
             (tel_x t, tel_y t, tel_psi t, tel_speed t * 0.44704)
             (- tel_steering_angle t, tel_throttle t) of
        (x', y', psi', v') \<Rightarrow>
          control_step qr solve mpc (tel_ptsx t) (tel_ptsy t) x' y' psi' v')"
  by (simp add: telemetry_cycle_def spec_latency_compensator_def Let_def mult.commute)

subsection \<open>Speed and steering conventions\<close>

text \<open>
  C9. For every telemetry record and every speed \<open>mph\<close> in its speed field, the speed
  enters the cycle as \<open>v0 = mph * 0.44704\<close> only: the pose predicted over the latency is
  computed from \<open>v0\<close>, the waypoints are transformed and fitted at that pose, and the state
  given to the solver is \<open>(0, 0, 0, v0 + throttle * 0.1, cte, epsi)\<close>; the reply is built
  from what the solver returns for it.
\<close>

theorem speed_in_metres_per_second:
  fixes t :: telemetry and mph :: real
  defines "v0 \<equiv> mph * 0.44704"
  defines "px \<equiv> tel_x t + v0 * cos (tel_psi t) * 0.1"
    and "py \<equiv> tel_y t + v0 * sin (tel_psi t) * 0.1"
    and "psi \<equiv> tel_psi t + v0 * (- tel_steering_angle t) / 2.67 * 0.1"
  assumes "transform_waypoints psi px py (tel_ptsx t) (tel_ptsy t) = Inr (wx, wy)"
    and "polyfit qr wx wy 3 = Inr coeffs"
    and "2 \<le> length coeffs"
  shows "telemetry_cycle qr solve mpc (t\<lparr>tel_speed := mph\<rparr>)
           = control_step qr solve mpc (tel_ptsx t) (tel_ptsy t) px py psi (v0 + tel_throttle t * 0.1)
    \<and> telemetry_cycle qr solve mpc (t\<lparr>tel_speed := mph\<rparr>)
         = (actuate (vars (solve mpc [0, 0, 0, v0 + tel_throttle t * 0.1,
                             polyeval coeffs 0, - arctan (coeffs ! 1)] coeffs)) coeffs,
            mpc_after (solve mpc [0, 0, 0, v0 + tel_throttle t * 0.1,
                             polyeval coeffs 0, - arctan (coeffs ! 1)] coeffs))"
proof -
  have pose: "telemetry_cycle qr solve mpc (t\<lparr>tel_speed := mph\<rparr>)
      = control_step qr solve mpc (tel_ptsx t) (tel_ptsy t) px py psi (v0 + tel_throttle t * 0.1)"
    by (simp add: telemetry_cycle_unfold px_def py_def psi_def v0_def)
  then show ?thesis
    using control_step_solved [OF assms(5-7)] by simp
qed

theorem speed_in_metres_per_second_witness:
  "telemetry_cycle (fixed_fit [0, 0, 0, 0]) (fixed_solver [1 / 10, 1 / 2]) () (straight_line\<lparr>tel_speed := 20\<rparr>)
      = control_step (fixed_fit [0, 0, 0, 0]) (fixed_solver [1 / 10, 1 / 2]) ()
          [0, 10, 20, 30, 40, 50] [0, 0, 0, 0, 0, 0]
          (20 * 0.44704 * 0.1) 0 0 (20 * 0.44704 + 1 * 0.1)
   \<and> telemetry_cycle (fixed_fit [0, 0, 0, 0]) (fixed_solver [1 / 10, 1 / 2]) () (straight_line\<lparr>tel_speed := 20\<rparr>)
      = (actuate (vars (fixed_solver [1 / 10, 1 / 2] () [0, 0, 0, 20 * 0.44704 + 1 * 0.1, 0, 0] [0, 0, 0, 0]))
           [0, 0, 0, 0],
         mpc_after (fixed_solver [1 / 10, 1 / 2] () [0, 0, 0, 20 * 0.44704 + 1 * 0.1, 0, 0] [0, 0, 0, 0]))"
proof -
  have "length (tel_ptsx straight_line) \<le> length (tel_ptsy straight_line)"
    by (simp add: straight_line_def)
  from transform_waypoints_total [OF this]
  obtain wx wy where w: "transform_waypoints
        (tel_psi straight_line + 20 * 0.44704 * (- tel_steering_angle straight_line) / 2.67 * 0.1)
        (tel_x straight_line + 20 * 0.44704 * cos (tel_psi straight_line) * 0.1)
        (tel_y straight_line + 20 * 0.44704 * sin (tel_psi straight_line) * 0.1)
        (tel_ptsx straight_line) (tel_ptsy straight_line) = Inr (wx, wy)"
    and l: "length wx = length (tel_ptsx straight_line)" "length wy = length (tel_ptsx straight_line)"
    by blast
  from l have fit: "polyfit (fixed_fit [0, 0, 0, 0]) wx wy 3 = Inr [0, 0, 0, 0]"
    by (simp add: polyfit_def fixed_fit_def straight_line_def)
  note run = speed_in_metres_per_second [OF w fit, of "fixed_solver [1 / 10, 1 / 2]" "()"]
  have "telemetry_cycle (fixed_fit [0, 0, 0, 0]) (fixed_solver [1 / 10, 1 / 2]) () (straight_line\<lparr>tel_speed := 20\<rparr>)
      = control_step (fixed_fit [0, 0, 0, 0]) (fixed_solver [1 / 10, 1 / 2]) ()
          [0, 10, 20, 30, 40, 50] [0, 0, 0, 0, 0, 0]
          (20 * 0.44704 * 0.1) 0 0 (20 * 0.44704 + 1 * 0.1)"
    using run [THEN conjunct1] by (simp add: straight_line_def)
  moreover have "telemetry_cycle (fixed_fit [0, 0, 0, 0]) (fixed_solver [1 / 10, 1 / 2]) () (straight_line\<lparr>tel_speed := 20\<rparr>)
      = (actuate (vars (fixed_solver [1 / 10, 1 / 2] () [0, 0, 0, 20 * 0.44704 + 1 * 0.1, 0, 0] [0, 0, 0, 0]))
           [0, 0, 0, 0],
         mpc_after (fixed_solver [1 / 10, 1 / 2] () [0, 0, 0, 20 * 0.44704 + 1 * 0.1, 0, 0] [0, 0, 0, 0]))"
    using run [THEN conjunct2] by (simp add: straight_line_def polyeval_at_zero)
  ultimately show ?thesis by (intro conjI)
qed

text \<open>
  C8. For every cycle that reaches the solver, the telemetry steering angle enters the
  predicted heading negated (\<open>psi + v0 * (- steering_angle) / 2.67 * 0.1\<close>), the steering
  value sent is the solver's first output negated and divided by \<open>deg2rad 25\<close>, which is
  \<open>25 * pi / 180\<close> (25 degrees in radians), and the throttle sent is the solver's second
  output as it is.
\<close>

theorem steering_sign_and_scale:
  fixes t :: telemetry
  defines "v0 \<equiv> tel_speed t * 0.44704"
  defines "px \<equiv> tel_x t + v0 * cos (tel_psi t) * 0.1"
    and "py \<equiv> tel_y t + v0 * sin (tel_psi t) * 0.1"
    and "psi \<equiv> tel_psi t + v0 * (- tel_steering_angle t) / 2.67 * 0.1"
    and "v \<equiv> v0 + tel_throttle t * 0.1"
  assumes "transform_waypoints psi px py (tel_ptsx t) (tel_ptsy t) = Inr (wx, wy)"
    and "polyfit qr wx wy 3 = Inr coeffs"
    and "2 \<le> length coeffs"
    and "vars (solve mpc [0, 0, 0, v, polyeval coeffs 0, - arctan (coeffs ! 1)] coeffs) = result"
    and "2 \<le> length result"
  shows "telemetry_cycle qr solve mpc t
           = control_step qr solve mpc (tel_ptsx t) (tel_ptsy t) px py psi v
    \<and> deg2rad 25 = 25 * pi / 180
    \<and> map_option cmd_steering_angle (sent_command (fst (telemetry_cycle qr solve mpc t)))
         = Some (- (result ! 0) / (25 * pi / 180))
    \<and> map_option cmd_throttle (sent_command (fst (telemetry_cycle qr solve mpc t)))
         = Some (result ! 1)"
proof -
  have pose: "telemetry_cycle qr solve mpc t
      = control_step qr solve mpc (tel_ptsx t) (tel_ptsy t) px py psi v"
    by (simp add: telemetry_cycle_unfold px_def py_def psi_def v_def v0_def)
  have "fst (telemetry_cycle qr solve mpc t) = actuate result coeffs"
    unfolding pose control_step_solved [OF assms(6-8)] using assms(9) by simp
  moreover obtain c where "actuate result coeffs = Sent (Steer c)"
    and "cmd_steering_angle c = - (result ! 0) / deg2rad 25" and "cmd_throttle c = result ! 1"
    using actuate_sent [OF assms(10)] by blast
  ultimately show ?thesis using pose by (simp add: deg2rad_25)
qed

theorem steering_sign_and_scale_witness:
  "telemetry_cycle (fixed_fit [0, 0, 0, 0]) (fixed_solver [1 / 10, 1 / 2]) () left_turn
      = control_step (fixed_fit [0, 0, 0, 0]) (fixed_solver [1 / 10, 1 / 2]) ()
          [0, 10, 20, 30, 40, 50] [0, 0, 0, 0, 0, 0]
          (10 * 0.44704 * 0.1) 0 (10 * 0.44704 * (- (1 / 10)) / 2.67 * 0.1) (10 * 0.44704 + 1 * 0.1)
   \<and> map_option cmd_steering_angle
        (sent_command (fst (telemetry_cycle (fixed_fit [0, 0, 0, 0]) (fixed_solver [1 / 10, 1 / 2]) () left_turn)))
      = Some (- (1 / 10) / (25 * pi / 180))
   \<and> map_option cmd_throttle
        (sent_command (fst (telemetry_cycle (fixed_fit [0, 0, 0, 0]) (fixed_solver [1 / 10, 1 / 2]) () left_turn)))
      = Some (1 / 2)"
proof -
  have "length (tel_ptsx left_turn) \<le> length (tel_ptsy left_turn)"
    by (simp add: left_turn_def straight_line_def)
  from transform_waypoints_total [OF this]
  obtain wx wy where w: "transform_waypoints
        (tel_psi left_turn + tel_speed left_turn * 0.44704 * (- tel_steering_angle left_turn) / 2.67 * 0.1)
        (tel_x left_turn + tel_speed left_turn * 0.44704 * cos (tel_psi left_turn) * 0.1)
        (tel_y left_turn + tel_speed left_turn * 0.44704 * sin (tel_psi left_turn) * 0.1)
        (tel_ptsx left_turn) (tel_ptsy left_turn) = Inr (wx, wy)"
    and l: "length wx = length (tel_ptsx left_turn)" "length wy = length (tel_ptsx left_turn)"
    by blast
  from l have fit: "polyfit (fixed_fit [0, 0, 0, 0]) wx wy 3 = Inr [0, 0, 0, 0]"
    by (simp add: polyfit_def fixed_fit_def left_turn_def straight_line_def)
  have r: "vars (fixed_solver [1 / 10, 1 / 2] () s c) = [1 / 10, 1 / 2]" for s c
    by (simp add: fixed_solver_def)
  have len: "2 \<le> length [0, 0, 0, 0 :: real]" "2 \<le> length [1 / 10, 1 / 2 :: real]"
    by simp_all
  note sent = steering_sign_and_scale
    [where solve = "fixed_solver [1 / 10, 1 / 2]" and mpc = "()", OF w fit len(1) r len(2)]
  have "telemetry_cycle (fixed_fit [0, 0, 0, 0]) (fixed_solver [1 / 10, 1 / 2]) () left_turn
      = control_step (fixed_fit [0, 0, 0, 0]) (fixed_solver [1 / 10, 1 / 2]) ()
          [0, 10, 20, 30, 40, 50] [0, 0, 0, 0, 0, 0]
          (10 * 0.44704 * 0.1) 0 (10 * 0.44704 * (- (1 / 10)) / 2.67 * 0.1) (10 * 0.44704 + 1 * 0.1)"
    using sent [THEN conjunct1] by (simp add: left_turn_def straight_line_def)
  moreover have "map_option cmd_steering_angle
        (sent_command (fst (telemetry_cycle (fixed_fit [0, 0, 0, 0]) (fixed_solver [1 / 10, 1 / 2]) () left_turn)))
      = Some (- (1 / 10) / (25 * pi / 180))"
    using sent [THEN conjunct2, THEN conjunct2, THEN conjunct1] by simp
  moreover have "map_option cmd_throttle
        (sent_command (fst (telemetry_cycle (fixed_fit [0, 0, 0, 0]) (fixed_solver [1 / 10, 1 / 2]) () left_turn)))
      = Some (1 / 2)"
    using sent [THEN conjunct2, THEN conjunct2, THEN conjunct2] by simp
  ultimately show ?thesis by (intro conjI)
qed

subsection \<open>Cross-track and heading error\<close>

text \<open>
  C6. For every cycle whose fit returns \<open>[c0, c1, c2, c3]\<close>, the cross-track error
  \<open>polyeval coeffs 0\<close> is exactly \<open>c0\<close> and the heading error is \<open>- arctan c1\<close>: the solver
  is called on the state \<open>(0, 0, 0, v, c0, - arctan c1)\<close>.
\<close>

theorem errors_from_fit:
  fixes t :: telemetry
  defines "v0 \<equiv> tel_speed t * 0.44704"
  defines "px \<equiv> tel_x t + v0 * cos (tel_psi t) * 0.1"
    and "py \<equiv> tel_y t + v0 * sin (tel_psi t) * 0.1"
    and "psi \<equiv> tel_psi t + v0 * (- tel_steering_angle t) / 2.67 * 0.1"
    and "v \<equiv> v0 + tel_throttle t * 0.1"
  assumes "transform_waypoints psi px py (tel_ptsx t) (tel_ptsy t) = Inr (wx, wy)"
    and "polyfit qr wx wy 3 = Inr [c0, c1, c2, c3]"
  shows "polyeval [c0, c1, c2, c3] 0 = c0
    \<and> telemetry_cycle qr solve mpc t =
        (actuate (vars (solve mpc [0, 0, 0, v, c0, - arctan c1] [c0, c1, c2, c3])) [c0, c1, c2, c3],
         mpc_after (solve mpc [0, 0, 0, v, c0, - arctan c1] [c0, c1, c2, c3]))"
proof -
  have "polyeval [c0, c1, c2, c3] 0 = c0"
    by (rule polyeval_at_zero)
  moreover have "telemetry_cycle qr solve mpc t = control_step qr solve mpc (tel_ptsx t) (tel_ptsy t) px py psi v"
    by (simp add: telemetry_cycle_unfold px_def py_def psi_def v_def v0_def)
  ultimately show ?thesis
    using control_step_solved [OF assms(6) assms(7), of solve mpc v] by simp
qed

theorem errors_from_fit_witness:
  "transform_waypoints 0 (44704 / 100000) 0 [0, 1, 2, 3] [1, 2, 3, 4]
      = Inr ([- 0.44704, 0.55296, 1.55296, 2.55296], [1, 2, 3, 4])
   \<and> polyfit (fixed_fit [1.44704, 1, 0, 0]) [- 0.44704, 0.55296, 1.55296, 2.55296] [1, 2, 3, 4] 3
      = Inr [1.44704, 1, 0, 0]
   \<and> polyeval [1.44704, 1, 0, 0] 0 = 1.44704
   \<and> telemetry_cycle (fixed_fit [1.44704, 1, 0, 0]) (fixed_solver [1 / 10, 1 / 2]) () offset_line
      = (actuate (vars (fixed_solver [1 / 10, 1 / 2] () [0, 0, 0, 4.5704, 1.44704, - arctan 1] [1.44704, 1, 0, 0]))
           [1.44704, 1, 0, 0],
         mpc_after (fixed_solver [1 / 10, 1 / 2] () [0, 0, 0, 4.5704, 1.44704, - arctan 1] [1.44704, 1, 0, 0]))"
  using errors_from_fit [of offset_line "[- 0.44704, 0.55296, 1.55296, 2.55296]" "[1, 2, 3, 4]"
      "fixed_fit [1.44704, 1, 0, 0]" "1.44704" 1 0 0 "fixed_solver [1 / 10, 1 / 2]" "()"]
  by (simp add: offset_line_def straight_line_def transform_waypoints_def global2car_def
      polyfit_def fixed_fit_def Let_def)

subsection \<open>What the handler does with the solver's answer\<close>




text \<open>A solver that keeps its bounds on every call gets a command in range out of every
  cycle with at least four waypoints.\<close>

lemma bounded_solver_bounded_command:
  assumes "4 \<le> length (tel_ptsx t)" and "length (tel_ptsx t) \<le> length (tel_ptsy t)"
    and qr: "\<And>A y. 2 \<le> length (qr A y)"
    and solve: "\<And>m s c. 2 \<le> length (vars (solve m s c))
        \<and> \<bar>vars (solve m s c) ! 0\<bar> \<le> deg2rad 25 \<and> \<bar>vars (solve m s c) ! 1\<bar> \<le> 1"
  shows "\<exists>c. fst (telemetry_cycle qr solve mpc t) = Sent (Steer c) \<and> within_bounds c"
proof -
  let ?psi = "tel_psi t + tel_speed t * 0.44704 * (- tel_steering_angle t) / 2.67 * 0.1"
  let ?px = "tel_x t + tel_speed t * 0.44704 * cos (tel_psi t) * 0.1"
  let ?py = "tel_y t + tel_speed t * 0.44704 * sin (tel_psi t) * 0.1"
  obtain wx wy where w: "transform_waypoints ?psi ?px ?py (tel_ptsx t) (tel_ptsy t) = Inr (wx, wy)"
    and lx: "length wx = length (tel_ptsx t)" and ly: "length wy = length (tel_ptsx t)"
    using transform_waypoints_total [OF assms(2)] by blast
  define coeffs where "coeffs = qr (map (\<lambda>x. design_row 1 x (nat 3)) wx) wy"
  have fit: "polyfit qr wx wy 3 = Inr coeffs"
    unfolding coeffs_def using lx ly assms(1) by (intro polyfit_enough) simp_all
  have len: "2 \<le> length coeffs"
    unfolding coeffs_def by (rule qr)
  let ?r = "vars (solve mpc [0, 0, 0, tel_speed t * 0.44704 + tel_throttle t * 0.1,
              polyeval coeffs 0, - arctan (coeffs ! 1)] coeffs)"
  from solve have r2: "2 \<le> length ?r" and rb: "\<bar>?r ! 0\<bar> \<le> deg2rad 25 \<and> \<bar>?r ! 1\<bar> \<le> 1"
    by blast+
  from actuate_sent [OF r2, of coeffs] obtain c where c: "actuate ?r coeffs = Sent (Steer c)"
    by blast
  from actuate_within_bounds [OF r2 c] rb have "within_bounds c" by simp
  with c show ?thesis
    unfolding telemetry_cycle_unfold control_step_solved [OF w fit len] fst_conv by blast
qed

text \<open>
  C3, as the source has it. For every cycle that reaches the solver (the waypoints are
  transformed and fitted, the fit has at least two coefficients) and whose solve returns a
  vector \<open>result\<close> of at least two entries, a steering command is sent whose steering is
  \<open>- result[0] / (25 * pi / 180)\<close> and whose throttle is \<open>result[1]\<close>, both exactly as
  computed from the solver's vector: nothing is clamped. So the steering and throttle sent
  lie in \<open>[-1, 1]\<close> if and only if \<open>\<bar>result[0]\<bar> \<le> 25 * pi / 180\<close> and \<open>\<bar>result[1]\<bar> \<le> 1\<close>.
\<close>

theorem command_unclamped:
  fixes t :: telemetry
  defines "v0 \<equiv> tel_speed t * 0.44704"
  defines "px \<equiv> tel_x t + v0 * cos (tel_psi t) * 0.1"
    and "py \<equiv> tel_y t + v0 * sin (tel_psi t) * 0.1"
    and "psi \<equiv> tel_psi t + v0 * (- tel_steering_angle t) / 2.67 * 0.1"
    and "v \<equiv> v0 + tel_throttle t * 0.1"
  assumes "transform_waypoints psi px py (tel_ptsx t) (tel_ptsy t) = Inr (wx, wy)"
    and "polyfit qr wx wy 3 = Inr coeffs"
    and "2 \<le> length coeffs"
    and "vars (solve mpc [0, 0, 0, v, polyeval coeffs 0, - arctan (coeffs ! 1)] coeffs) = result"
    and "2 \<le> length result"
  shows "\<exists>c. fst (telemetry_cycle qr solve mpc t) = Sent (Steer c)
    \<and> cmd_steering_angle c = - (result ! 0) / (25 * pi / 180)
    \<and> cmd_throttle c = result ! 1
    \<and> (within_bounds c \<longleftrightarrow> \<bar>result ! 0\<bar> \<le> 25 * pi / 180 \<and> \<bar>result ! 1\<bar> \<le> 1)"
proof -
  have pose: "telemetry_cycle qr solve mpc t
      = control_step qr solve mpc (tel_ptsx t) (tel_ptsy t) px py psi v"
    by (simp add: telemetry_cycle_unfold px_def py_def psi_def v_def v0_def)
  have sent: "fst (telemetry_cycle qr solve mpc t) = actuate result coeffs"
    unfolding pose control_step_solved [OF assms(6-8)] using assms(9) by simp
  obtain c where c: "actuate result coeffs = Sent (Steer c)"
    and s: "cmd_steering_angle c = - (result ! 0) / deg2rad 25"
    and th: "cmd_throttle c = result ! 1"
    using actuate_sent [OF assms(10)] by blast
  from actuate_within_bounds [OF assms(10) c]
  have "within_bounds c \<longleftrightarrow> \<bar>result ! 0\<bar> \<le> 25 * pi / 180 \<and> \<bar>result ! 1\<bar> \<le> 1"
    by (simp only: deg2rad_25)
  moreover from s have "cmd_steering_angle c = - (result ! 0) / (25 * pi / 180)"
    by (simp only: deg2rad_25)
  moreover from sent c have "fst (telemetry_cycle qr solve mpc t) = Sent (Steer c)"
    by simp
  ultimately show ?thesis
    using th by (intro exI [of _ c]) simp
qed

theorem command_unclamped_witness:
  "\<exists>c. fst (telemetry_cycle (fixed_fit [0, 0, 0, 0]) (fixed_solver [1 / 10, 1 / 2]) () left_turn)
          = Sent (Steer c)
    \<and> cmd_steering_angle c = - (1 / 10) / (25 * pi / 180)
    \<and> cmd_throttle c = 1 / 2
    \<and> within_bounds c"
proof -
  have "length (tel_ptsx left_turn) \<le> length (tel_ptsy left_turn)"
    by (simp add: left_turn_def straight_line_def)
  from transform_waypoints_total [OF this]
  obtain wx wy where w: "transform_waypoints
        (tel_psi left_turn + tel_speed left_turn * 0.44704 * (- tel_steering_angle left_turn) / 2.67 * 0.1)
        (tel_x left_turn + tel_speed left_turn * 0.44704 * cos (tel_psi left_turn) * 0.1)
        (tel_y left_turn + tel_speed left_turn * 0.44704 * sin (tel_psi left_turn) * 0.1)
        (tel_ptsx left_turn) (tel_ptsy left_turn) = Inr (wx, wy)"
    and l: "length wx = length (tel_ptsx left_turn)" "length wy = length (tel_ptsx left_turn)"
    by blast
  from l have fit: "polyfit (fixed_fit [0, 0, 0, 0]) wx wy 3 = Inr [0, 0, 0, 0]"
    by (simp add: polyfit_def fixed_fit_def left_turn_def straight_line_def)
  have r: "vars (fixed_solver [1 / 10, 1 / 2] () s c) = [1 / 10, 1 / 2]" for s c
    by (simp add: fixed_solver_def)
  have len: "2 \<le> length [0, 0, 0, 0 :: real]" "2 \<le> length [1 / 10, 1 / 2 :: real]"
    by simp_all
  have b: "\<bar>1 / 10 :: real\<bar> \<le> 25 * pi / 180 \<and> \<bar>1 / 2 :: real\<bar> \<le> 1"
    using pi_ge_two by simp
  from command_unclamped
    [where solve = "fixed_solver [1 / 10, 1 / 2]" and mpc = "()", OF w fit len(1) r len(2)]
  obtain c where "fst (telemetry_cycle (fixed_fit [0, 0, 0, 0]) (fixed_solver [1 / 10, 1 / 2]) () left_turn)
          = Sent (Steer c)"
    and "cmd_steering_angle c = - ([1 / 10, 1 / 2] ! 0) / (25 * pi / 180)"
    and "cmd_throttle c = [1 / 10, 1 / 2] ! 1"
    and "within_bounds c \<longleftrightarrow> \<bar>[1 / 10, 1 / 2 :: real] ! 0\<bar> \<le> 25 * pi / 180 \<and> \<bar>[1 / 10, 1 / 2 :: real] ! 1\<bar> \<le> 1"
    by blast
  with b show ?thesis
    by (intro exI [of _ c]) simp
qed

text \<open>C3 as the specification states it fails: a converged solve that returns the throttle
  \<open>5\<close> has the throttle \<open>5\<close> sent.\<close>

theorem unclamped_throttle:
  "(\<forall>s c. converged (fixed_solver [1, 5] () s c))
   \<and> (case sent_command (fst (telemetry_cycle (fixed_fit [0, 0, 0, 0]) (fixed_solver [1, 5]) () straight_line)) of
        None \<Rightarrow> False
      | Some c \<Rightarrow> cmd_throttle c = 5 \<and> \<not> within_bounds c)"
  by (simp add: straight_line_run fixed_solver_def actuate_def case_prod_beta within_bounds_def)

subsection \<open>Payload extraction\<close>

text \<open>The three searches against what they stand for: \<open>find\<close> and \<open>rfind\<close> find an
  occurrence exactly when there is one, \<open>find_first_of\<close> gives the first position holding
  one of the characters, \<open>rfind\<close> the last position at which the pattern starts.\<close>

lemma take_eq_prefix: "take (length pat) s = pat \<longleftrightarrow> prefix pat s"
  by (metis prefix_def append_eq_conv_conj append_take_drop_id)

lemma find_str_None_iff: "find_str pat s = None \<longleftrightarrow> \<not> sublist pat s"
  by (induction s) (auto simp add: take_eq_prefix sublist_Cons_right simp del: take_Suc_Cons)

lemma find_first_of_Some_iff:
  "find_first_of chars s = Some i \<longleftrightarrow>
     i < length s \<and> s ! i \<in> set chars \<and> (\<forall>j<i. s ! j \<notin> set chars)"
proof (induction s arbitrary: i)
  case Nil
  then show ?case by simp
next
  case (Cons c cs)
  show ?case
  proof (cases "c \<in> set chars")
    case True
    then show ?thesis by (cases i) auto
  next
    case False
    show ?thesis
    proof (cases i)
      case 0
      with False show ?thesis by simp
    next
      case (Suc k)
      have "(\<forall>j<Suc k. (c # cs) ! j \<notin> set chars) \<longleftrightarrow> (\<forall>j<k. cs ! j \<notin> set chars)"
        using False by (auto simp add: less_Suc_eq_0_disj)
      with False Suc Cons.IH [of k] show ?thesis by auto
    qed
  qed
qed

lemma find_first_of_None_iff: "find_first_of chars s = None \<longleftrightarrow> set s \<inter> set chars = {}"
  by (induction s) auto

lemma rfind_str_None_iff: "rfind_str pat s = None \<longleftrightarrow> \<not> sublist pat s"
  by (induction s) (auto simp add: take_eq_prefix sublist_Cons_right simp del: take_Suc_Cons split: option.splits)

lemma rfind_str_SomeD:
  "rfind_str pat s = Some i \<Longrightarrow>
     i \<le> length s \<and> take (length pat) (drop i s) = pat \<and>
     (\<forall>j. i < j \<and> j \<le> length s \<longrightarrow> take (length pat) (drop j s) \<noteq> pat)"
proof (induction s arbitrary: i)
  case Nil
  then show ?case by (auto split: if_splits)
next
  case (Cons c cs)
  show ?case
  proof (cases "rfind_str pat cs")
    case None
    with Cons.prems have i: "i = 0" and p: "take (length pat) (c # cs) = pat"
      by (auto split: if_splits)
    have "take (length pat) (drop j (c # cs)) \<noteq> pat" if "0 < j" "j \<le> length (c # cs)" for j
    proof -
      from that obtain k where k: "j = Suc k" by (cases j) auto
      have "sublist (take (length pat) (drop k cs)) cs"
        by (metis append_take_drop_id sublist_appendI sublist_def)
      with None show ?thesis
        unfolding rfind_str_None_iff k by auto
    qed
    with i p show ?thesis by auto
  next
    case (Some k)
    with Cons.prems have i: "i = Suc k" by simp
    from Cons.IH [OF Some] have k: "k \<le> length cs" "take (length pat) (drop k cs) = pat"
      "\<forall>j. k < j \<and> j \<le> length cs \<longrightarrow> take (length pat) (drop j cs) \<noteq> pat"
      by auto
    have "take (length pat) (drop j (c # cs)) \<noteq> pat" if "Suc k < j" "j \<le> length (c # cs)" for j
    proof -
      from that obtain j' where j': "j = Suc j'" by (cases j) auto
      with that k(3) show ?thesis by auto
    qed
    with i k show ?thesis by auto
  qed
qed

text \<open>The count \<^verbatim>\<open>b2 - b1 + 2\<close> in 64-bit unsigned arithmetic.\<close>

lemma count_wrap:
  "unat (word_of_nat p2 - word_of_nat p1 + 2 :: 64 word) = nat ((int p2 - int p1 + 2) mod 2 ^ 64)"
proof -
  have "(word_of_nat p2 - word_of_nat p1 + 2 :: 64 word) = word_of_int (int p2 - int p1 + 2)"
    by simp
  then have "unat (word_of_nat p2 - word_of_nat p1 + 2 :: 64 word)
      = nat (uint (word_of_int (int p2 - int p1 + 2) :: 64 word))"
    by (simp only: unat_eq_nat_uint)
  also have "\<dots> = nat ((int p2 - int p1 + 2) mod 2 ^ 64)"
    by (simp only: uint_word_of_int) simp
  finally show ?thesis .
qed

lemma count_forward:
  assumes "p1 \<le> p2" and "p2 + 2 < 2 ^ 64"
  shows "unat (word_of_nat p2 - word_of_nat p1 + 2 :: 64 word) = p2 + 2 - p1"
proof -
  have "(int p2 - int p1 + 2) mod 2 ^ 64 = int p2 - int p1 + 2"
    using assms by (intro mod_pos_pos_trivial) auto
  with assms show ?thesis
    unfolding count_wrap by simp
qed

lemma count_backward:
  assumes "p2 + 2 < p1" and "p1 < 2 ^ 64"
  shows "unat (word_of_nat p2 - word_of_nat p1 + 2 :: 64 word) = 2 ^ 64 - (p1 - (p2 + 2))"
proof -
  have "(int p2 - int p1 + 2) mod 2 ^ 64 = (int p2 - int p1 + 2 + 2 ^ 64) mod 2 ^ 64"
    by (simp only: mod_add_self2)
  also have "\<dots> = int p2 - int p1 + 2 + 2 ^ 64"
    using assms by (intro mod_pos_pos_trivial) auto
  finally show ?thesis
    using assms unfolding count_wrap by (simp add: nat_eq_iff)
qed

text \<open>What \<open>hasData\<close> returns, case by case: nothing when \<^verbatim>\<open>null\<close> occurs, nothing
  without a \<^verbatim>\<open>[\<close> or without a \<^verbatim>\<open>}]\<close>, the text from the first \<^verbatim>\<open>[\<close> through the
  last \<^verbatim>\<open>}]\<close> when the latter comes later, and the whole rest of the message from the
  first \<^verbatim>\<open>[\<close> on when the last \<^verbatim>\<open>}]\<close> ends before it (the count has wrapped).\<close>

lemma hasData_null: "sublist ''null'' s \<Longrightarrow> hasData s = ''''"
  by (simp add: hasData_def find_str_None_iff)

lemma hasData_no_bracket:
  "find_first_of ''['' s = None \<or> rfind_str ''}]'' s = None \<Longrightarrow> hasData s = ''''"
  by (auto simp add: hasData_def Let_def split: option.splits)

lemma hasData_payload:
  assumes "\<not> sublist ''null'' s"
    and "find_first_of ''['' s = Some b1" and "rfind_str ''}]'' s = Some b2"
    and "b1 < b2" and "length s < 2 ^ 64"
  shows "hasData s = take (b2 + 2 - b1) (drop b1 s)"
proof -
  from rfind_str_SomeD [OF assms(3)] have "take (length ''}]'') (drop b2 s) = ''}]''"
    by blast
  then have "length (take (length ''}]'') (drop b2 s)) = length ''}]''"
    by (rule arg_cong)
  then have "b2 + 2 \<le> length s"
    by simp
  with assms(5) have "b2 + 2 < 2 ^ 64"
    by simp
  with assms(4) have "unat (word_of_nat b2 - word_of_nat b1 + 2 :: 64 word) = b2 + 2 - b1"
    by (intro count_forward) simp_all
  moreover have "find_str ''null'' s = None"
    using assms(1) by (simp add: find_str_None_iff)
  ultimately show ?thesis
    using assms(2,3) by (simp add: hasData_def substr_def)
qed

lemma hasData_wrapped:
  assumes "\<not> sublist ''null'' s"
    and "find_first_of ''['' s = Some b1" and "rfind_str ''}]'' s = Some b2"
    and "b2 + 2 < b1" and "length s < 2 ^ 64"
  shows "hasData s = drop b1 s" and "hasData s \<noteq> ''''"
proof -
  from assms(2) have b1: "b1 < length s"
    by (simp add: find_first_of_Some_iff)
  with assms(5) have "b1 < 2 ^ 64" by simp
  with assms(4) have "unat (word_of_nat b2 - word_of_nat b1 + 2 :: 64 word) = 2 ^ 64 - (b1 - (b2 + 2))"
    by (intro count_backward)
  moreover have "length (drop b1 s) \<le> 2 ^ 64 - (b1 - (b2 + 2))"
    using assms(4,5) b1 by simp
  moreover have "find_str ''null'' s = None"
    using assms(1) by (simp add: find_str_None_iff)
  ultimately show "hasData s = drop b1 s"
    using assms(2,3) by (simp add: hasData_def substr_def)
  with b1 show "hasData s \<noteq> ''''" by simp
qed

text \<open>An empty extraction from a \<^verbatim>\<open>42\<close> message is answered with the manual-driving
  reply.\<close>

lemma onMessage_manual:
  assumes "2 < length sdata" and "sdata ! 0 = CHR ''4''" and "sdata ! 1 = CHR ''2''"
    and "hasData sdata = ''''"
  shows "onMessage parse qr solve mpc sdata = (Sent Manual, mpc)"
  using assms by (simp add: onMessage_def)


text \<open>A \<^verbatim>\<open>[\<close> at \<open>i\<close> and a \<^verbatim>\<open>}]\<close> at a later \<open>j\<close> are enough for the payload case.\<close>

lemma occurrence_sublist:
  assumes "take (length pat) (drop j s) = pat"
  shows "sublist pat s"
proof -
  have "s = take j s @ pat @ drop (length pat) (drop j s)"
    using assms by (metis append_take_drop_id)
  then show ?thesis
    unfolding sublist_def by blast
qed

lemma hasData_bracketed:
  assumes "\<not> sublist ''null'' s"
    and "i < j" and "i < length s" and "s ! i = CHR ''[''"
    and "take (length ''}]'') (drop j s) = ''}]''"
    and "length s < 2 ^ 64"
  shows "\<exists>b1 b2. find_first_of ''['' s = Some b1 \<and> rfind_str ''}]'' s = Some b2 \<and>
           b1 \<le> i \<and> j \<le> b2 \<and> hasData s = take (b2 + 2 - b1) (drop b1 s)"
proof -
  from assms(3) have "s ! i \<in> set s"
    by (rule nth_mem)
  with assms(4) have "s ! i \<in> set s \<inter> set ''[''"
    by simp
  then obtain b1 where b1: "find_first_of ''['' s = Some b1"
    using find_first_of_None_iff [of "''[''" s] by (cases "find_first_of ''['' s") auto
  have "b1 \<le> i"
  proof (rule ccontr)
    assume "\<not> b1 \<le> i"
    with b1 have "s ! i \<notin> set ''[''"
      by (simp add: find_first_of_Some_iff)
    with assms(4) show False by simp
  qed
  from occurrence_sublist [OF assms(5)] obtain b2 where b2: "rfind_str ''}]'' s = Some b2"
    using rfind_str_None_iff [of "''}]''" s] by (cases "rfind_str ''}]'' s") auto
  have "j \<le> length s"
  proof (rule ccontr)
    assume "\<not> j \<le> length s"
    then have "drop j s = []" by simp
    with assms(5) show False by simp
  qed
  have "j \<le> b2"
  proof (rule ccontr)
    assume "\<not> j \<le> b2"
    with rfind_str_SomeD [OF b2] \<open>j \<le> length s\<close>
    have "take (length ''}]'') (drop j s) \<noteq> ''}]''"
      by auto
    with assms(5) show False by simp
  qed
  with \<open>b1 \<le> i\<close> assms(2) have "b1 < b2"
    by simp
  from hasData_payload [OF assms(1) b1 b2 this assms(6)] b1 b2 \<open>b1 \<le> i\<close> \<open>j \<le> b2\<close>
  show ?thesis by blast
qed

text \<open>
  C10 at a message in which \<^verbatim>\<open>}]\<close> occurs only before the first \<^verbatim>\<open>[\<close>: the count
  \<^verbatim>\<open>b2 - b1 + 2\<close> wraps around, \<open>hasData\<close> returns the rest of the message from the
  \<^verbatim>\<open>[\<close> on instead of the empty string, and the handler gives it to the JSON parser
  instead of sending the manual-driving reply.
\<close>

theorem hasData_close_before_open:
  "hasData ''42}]x[abc'' = ''[abc''
   \<and> fst (onMessage (\<lambda>s. JsonThrows) qr solve mpc ''42}]x[abc'') = Crashed UncaughtException"
proof -
  have "unat (- 1 :: 64 word) = 18446744073709551615"
    by (simp add: unsigned_minus_1_eq_mask mask_eq_exp_minus_1)
  then have h: "hasData ''42}]x[abc'' = ''[abc''"
    by (simp add: hasData_def substr_def)
  show ?thesis
    unfolding onMessage_def h by (simp add: h)
qed

end
